theory Spec2Isabelle
  imports Complex_Main
begin

section \<open>Python values and errors\<close>

text \<open>
  The script \<^verbatim>\<open>clip_blip_model.py\<close> is modelled function by function. Every exception the
  interpreter or a library call can raise is a value of \<open>pyerror\<close>; a computation that may
  raise returns \<open>pyerror + 'a\<close>, with \<open>Inl\<close> for the exception.
\<close>

datatype pyerror =
    FileNotFoundError
  | IndexError
  | ValueError
  | ZeroDivisionError
  | RuntimeError
  | LibraryError string

text \<open>
  Indexing a Python list, \<^verbatim>\<open>xs[i]\<close>: the indices \<open>0 .. len - 1\<close> read from the front,
  the indices \<open>-len .. -1\<close> from the back, and every other index raises \<^verbatim>\<open>IndexError\<close>.
\<close>

definition list_get :: "'a list \<Rightarrow> int \<Rightarrow> pyerror + 'a" where
  "list_get xs i =
     (if 0 \<le> i \<and> i < int (length xs) then Inr (xs ! nat i)
      else if i < 0 \<and> - int (length xs) \<le> i then Inr (xs ! nat (int (length xs) + i))
      else Inl IndexError)"

section \<open>Strings: \<^verbatim>\<open>str.strip()\<close> and \<^verbatim>\<open>str.split()\<close>\<close>

text \<open>
  A Python \<^verbatim>\<open>str\<close> is a sequence of code points; a \<open>char\<close> is the code point below 256.
  \<^verbatim>\<open>str.isspace\<close> holds below 256 for the code points 9..13, 28..32, 133 and 160; these are
  the characters \<^verbatim>\<open>strip()\<close> removes and \<^verbatim>\<open>split()\<close> separates at.
\<close>

definition isspace :: "char \<Rightarrow> bool" where
  "isspace c =
     (let n = (of_char c :: nat)
      in (9 \<le> n \<and> n \<le> 13) \<or> (28 \<le> n \<and> n \<le> 32) \<or> n = 133 \<or> n = 160)"

definition strip :: "string \<Rightarrow> string" where
  "strip s = rev (dropWhile isspace (rev (dropWhile isspace s)))"

text \<open>
  \<^verbatim>\<open>s.split()\<close> with no separator: runs of whitespace separate the tokens, and no empty
  token is produced. \<open>cur\<close> is the token being read, in reverse.
\<close>

fun split_from :: "string \<Rightarrow> string \<Rightarrow> string list" where
  "split_from cur [] = (if cur = [] then [] else [rev cur])"
| "split_from cur (c # cs) =
     (if isspace c
      then (if cur = [] then split_from [] cs else rev cur # split_from [] cs)
      else split_from (c # cur) cs)"

definition split :: "string \<Rightarrow> string list" where
  "split s = split_from [] s"

section \<open>The dataset: \<^verbatim>\<open>MultiLabelImageDataset\<close>\<close>

text \<open>
  The fields of the class. \<open>label_map\<close> is the dictionary literal of the constructor,
  kept as an association list and read with \<open>map_of\<close>. \<open>transform\<close> is \<^verbatim>\<open>None\<close> or a
  callable, which may raise.
\<close>

record 'img MultiLabelImageDataset =
  images_path :: "string list"
  images_labels :: "string list list"
  transform :: "('img \<Rightarrow> pyerror + 'img) option"
  num_classes :: int
  label_map :: "(string \<times> nat) list"

definition label_map_init :: "(string \<times> nat) list" where
  "label_map_init = [(''fire'', 0), (''smoke'', 1), (''cloud'', 2), (''none'', 3)]"

text \<open>
  The loop of the constructor over the lines of the label file. \<open>paths\<close> and \<open>labs\<close> are
  \<^verbatim>\<open>self.images_path\<close> and \<^verbatim>\<open>self.images_labels\<close>, appended to line by line.
  \<^verbatim>\<open>parts[0]\<close> raises \<^verbatim>\<open>IndexError\<close> on an empty token list; \<^verbatim>\<open>parts[1:]\<close> is the rest.
  \<open>join\<close> is \<^verbatim>\<open>os.path.join\<close>, a function of the platform's path module.
\<close>

fun parse_lines ::
  "(string \<Rightarrow> string \<Rightarrow> string) \<Rightarrow> string \<Rightarrow> string list \<Rightarrow> string list \<Rightarrow> string list list
     \<Rightarrow> pyerror + (string list \<times> string list list)" where
  "parse_lines join images_dir [] paths labs = Inr (paths, labs)"
| "parse_lines join images_dir (line # rest) paths labs =
     (case split (strip line) of
        [] \<Rightarrow> Inl IndexError
      | img_name # labels \<Rightarrow>
          parse_lines join images_dir rest (paths @ [join images_dir img_name]) (labs @ [labels]))"

text \<open>
  \<^verbatim>\<open>__init__(self, images_dir, labels_file, transform=None, num_classes=4)\<close>. The file
  system \<open>fs\<close> maps the path of a text file to the lines that iterating over the opened
  file yields; \<^verbatim>\<open>open\<close> raises when there is no such file.
\<close>

definition MultiLabelImageDataset_init ::
  "(string \<Rightarrow> string \<Rightarrow> string) \<Rightarrow> (string \<rightharpoonup> string list) \<Rightarrow> string \<Rightarrow> string
     \<Rightarrow> ('img \<Rightarrow> pyerror + 'img) option \<Rightarrow> int \<Rightarrow> pyerror + 'img MultiLabelImageDataset" where
  "MultiLabelImageDataset_init join fs images_dir labels_file tr nc =
     (case fs labels_file of
        None \<Rightarrow> Inl FileNotFoundError
      | Some file \<Rightarrow>
          (case parse_lines join images_dir file [] [] of
             Inl e \<Rightarrow> Inl e
           | Inr (paths, labs) \<Rightarrow>
               Inr \<lparr>images_path = paths, images_labels = labs, transform = tr,
                    num_classes = nc, label_map = label_map_init\<rparr>))"

text \<open>The call of the script: \<^verbatim>\<open>transform\<close> and \<^verbatim>\<open>num_classes\<close> take their defaults.\<close>

definition dataset_of_script ::
  "(string \<Rightarrow> string \<Rightarrow> string) \<Rightarrow> (string \<rightharpoonup> string list) \<Rightarrow> string \<Rightarrow> string
     \<Rightarrow> pyerror + 'img MultiLabelImageDataset" where
  "dataset_of_script join fs images_dir labels_file =
     MultiLabelImageDataset_init join fs images_dir labels_file None 4"

definition len_dataset :: "'img MultiLabelImageDataset \<Rightarrow> nat" where
  "len_dataset self = length (images_path self)"

text \<open>\<^verbatim>\<open>torch.zeros(n)\<close>: a vector of \<open>n\<close> zeros; a negative size raises.\<close>

definition torch_zeros :: "int \<Rightarrow> pyerror + real list" where
  "torch_zeros n = (if n < 0 then Inl RuntimeError else Inr (replicate (nat n) 0))"

text \<open>
  The loop \<^verbatim>\<open>for label in labels: if label in self.label_map: label_vector[...] = 1\<close>.
  Writing a tensor at an index beyond its size raises \<^verbatim>\<open>IndexError\<close>.
\<close>

fun set_labels :: "(string \<times> nat) list \<Rightarrow> real list \<Rightarrow> string list \<Rightarrow> pyerror + real list" where
  "set_labels lm label_vector [] = Inr label_vector"
| "set_labels lm label_vector (label # rest) =
     (case map_of lm label of
        None \<Rightarrow> set_labels lm label_vector rest
      | Some k \<Rightarrow>
          (if k < length label_vector
           then set_labels lm (label_vector[k := 1]) rest
           else Inl IndexError))"

text \<open>
  \<^verbatim>\<open>__getitem__(self, idx)\<close>. \<open>image_open\<close> is \<^verbatim>\<open>Image.open(p).convert("RGB")\<close>, which
  raises when the file is missing or cannot be decoded.
\<close>

definition getitem ::
  "(string \<Rightarrow> pyerror + 'img) \<Rightarrow> 'img MultiLabelImageDataset \<Rightarrow> int \<Rightarrow> pyerror + ('img \<times> real list)" where
  "getitem image_open self idx =
     (case list_get (images_path self) idx of
        Inl e \<Rightarrow> Inl e
      | Inr img_path \<Rightarrow>
     (case list_get (images_labels self) idx of
        Inl e \<Rightarrow> Inl e
      | Inr labels \<Rightarrow>
     (case image_open img_path of
        Inl e \<Rightarrow> Inl e
      | Inr img \<Rightarrow>
     (case torch_zeros (num_classes self) of
        Inl e \<Rightarrow> Inl e
      | Inr zeros \<Rightarrow>
     (case set_labels (label_map self) zeros labels of
        Inl e \<Rightarrow> Inl e
      | Inr label_vector \<Rightarrow>
     (case transform self of
        None \<Rightarrow> Inr (img, label_vector)
      | Some t \<Rightarrow>
          (case t img of
             Inl e \<Rightarrow> Inl e
           | Inr img' \<Rightarrow> Inr (img', label_vector))))))))"

section \<open>The split sizes: double-precision arithmetic\<close>

text \<open>
  \<^verbatim>\<open>int(0.7 * len(dataset))\<close> multiplies two IEEE 754 doubles and truncates the product.
  A finite non-negative double is \<open>mant * 2 ^ expo\<close> with \<open>mant < 2 ^ 53\<close>. Every
  operation rounds its exact result to 53 significant bits, to nearest, ties to the
  even significand. Exponents stay far inside the range of a double here (a list has
  fewer than \<open>2 ^ 63\<close> elements), so overflow and subnormal numbers do not occur.
\<close>

record double =
  mant :: nat
  expo :: int

text \<open>The number of bits of a natural number (\<^verbatim>\<open>int.bit_length\<close>).\<close>

fun bit_length :: "nat \<Rightarrow> nat" where
  "bit_length n = (if n = 0 then 0 else Suc (bit_length (n div 2)))"

declare bit_length.simps [simp del]

text \<open>
  Rounding the integer \<open>p\<close> to 53 significant bits: the result is the pair \<open>(q, s)\<close>
  of the rounded significand and the number of bits dropped, standing for \<open>q * 2 ^ s\<close>.
\<close>

definition round53 :: "nat \<Rightarrow> nat \<times> nat" where
  "round53 p =
     (if bit_length p \<le> 53 then (p, 0)
      else
        (let s = bit_length p - 53;
             q = p div 2 ^ s;
             r = p mod 2 ^ s;
             half = 2 ^ (s - 1)
         in (if half < r \<or> (r = half \<and> odd q) then q + 1 else q, s)))"

text \<open>\<^verbatim>\<open>float(n)\<close> for the length of a list, and the product of two doubles.\<close>

definition float_of_nat :: "nat \<Rightarrow> double" where
  "float_of_nat n = (case round53 n of (q, s) \<Rightarrow> \<lparr>mant = q, expo = int s\<rparr>)"

definition float_mul :: "double \<Rightarrow> double \<Rightarrow> double" where
  "float_mul a b =
     (case round53 (mant a * mant b) of
        (q, s) \<Rightarrow> \<lparr>mant = q, expo = expo a + expo b + int s\<rparr>)"

text \<open>\<^verbatim>\<open>int(x)\<close> for a non-negative double: the fraction is cut off.\<close>

definition int_of_float :: "double \<Rightarrow> int" where
  "int_of_float x =
     (if 0 \<le> expo x then int (mant x * 2 ^ nat (expo x))
      else int (mant x div 2 ^ nat (- expo x)))"

text \<open>
  The literals \<^verbatim>\<open>0.7\<close> and \<^verbatim>\<open>0.15\<close> are the doubles nearest to 7/10 and 15/100:
  \<^verbatim>\<open>0x1.6666666666666p-1\<close> and \<^verbatim>\<open>0x1.3333333333333p-3\<close>.
\<close>

definition double_0_7 :: double where
  "double_0_7 = \<lparr>mant = 6305039478318694, expo = - 53\<rparr>"

definition double_0_15 :: double where
  "double_0_15 = \<lparr>mant = 5404319552844595, expo = - 55\<rparr>"

text \<open>
  The three sizes computed by the script from \<open>n = len(dataset)\<close>:
  \<^verbatim>\<open>train_size = int(0.7 * n)\<close>, \<^verbatim>\<open>val_size = int(0.15 * n)\<close>,
  \<^verbatim>\<open>test_size = n - train_size - val_size\<close>.
\<close>

definition train_size :: "nat \<Rightarrow> int" where
  "train_size n = int_of_float (float_mul double_0_7 (float_of_nat n))"

definition val_size :: "nat \<Rightarrow> int" where
  "val_size n = int_of_float (float_mul double_0_15 (float_of_nat n))"

definition test_size :: "nat \<Rightarrow> int" where
  "test_size n = int n - train_size n - val_size n"

section \<open>Tensors and the classifier head: \<^verbatim>\<open>Smoke_model\<close>\<close>

text \<open>
  The tensors that reach the model are two-dimensional, \<open>[batch, features]\<close>: a tensor is
  its shape and its rows. A \<^verbatim>\<open>float32\<close> entry is modelled by the real number it stands
  for; the claims about the model concern shapes and the order of the operands, not
  rounding.
\<close>

record tensor =
  nrows :: nat
  ncols :: nat
  rows :: "real list list"

definition tensor_ok :: "tensor \<Rightarrow> bool" where
  "tensor_ok t = (length (rows t) = nrows t \<and> list_all (\<lambda>r. length r = ncols t) (rows t))"

text \<open>
  \<^verbatim>\<open>a * b\<close> on tensors multiplies elementwise after broadcasting: two sizes of a dimension
  are compatible when they are equal or one of them is 1, and the operand of size 1 is
  repeated. Incompatible shapes raise \<^verbatim>\<open>RuntimeError\<close>.
\<close>

definition broadcast_dim :: "nat \<Rightarrow> nat \<Rightarrow> nat option" where
  "broadcast_dim m n =
     (if m = n then Some m else if m = 1 then Some n else if n = 1 then Some m else None)"

definition expand_row :: "nat \<Rightarrow> real list \<Rightarrow> real list" where
  "expand_row c r = (if length r = c then r else replicate c (hd r))"

definition expand :: "nat \<Rightarrow> nat \<Rightarrow> tensor \<Rightarrow> real list list" where
  "expand r c t =
     (if nrows t = r then map (expand_row c) (rows t)
      else replicate r (expand_row c (hd (rows t))))"

definition tensor_mul :: "tensor \<Rightarrow> tensor \<Rightarrow> pyerror + tensor" where
  "tensor_mul a b =
     (case broadcast_dim (nrows a) (nrows b) of
        None \<Rightarrow> Inl RuntimeError
      | Some r \<Rightarrow>
          (case broadcast_dim (ncols a) (ncols b) of
             None \<Rightarrow> Inl RuntimeError
           | Some c \<Rightarrow>
               Inr \<lparr>nrows = r, ncols = c,
                    rows = map2 (map2 (*)) (expand r c a) (expand r c b)\<rparr>))"

text \<open>
  \<^verbatim>\<open>nn.Linear(in_features, out_features)\<close> holds a weight of shape \<open>[out, in]\<close> and a bias
  of shape \<open>[out]\<close>. Its constructor fills them from a random initialiser, which is the
  parameter \<open>winit\<close>, \<open>binit\<close> here.
\<close>

record linear =
  in_features :: nat
  out_features :: nat
  weight :: "real list list"
  bias :: "real list"

definition Linear_init :: "nat \<Rightarrow> nat \<Rightarrow> (nat \<Rightarrow> nat \<Rightarrow> real) \<Rightarrow> (nat \<Rightarrow> real) \<Rightarrow> linear" where
  "Linear_init n_in n_out winit binit =
     \<lparr>in_features = n_in, out_features = n_out,
      weight = map (\<lambda>i. map (winit i) [0..<n_in]) [0..<n_out],
      bias = map binit [0..<n_out]\<rparr>"

text \<open>
  Applying the layer: \<open>x W\<^sup>T + b\<close>, row by row. The last dimension of the input must be
  \<open>in_features\<close>, or the matrix product raises \<^verbatim>\<open>RuntimeError\<close>.
\<close>

definition dot :: "real list \<Rightarrow> real list \<Rightarrow> real" where
  "dot xs ys = sum_list (map2 (*) xs ys)"

definition linear_forward :: "linear \<Rightarrow> tensor \<Rightarrow> pyerror + tensor" where
  "linear_forward l x =
     (if ncols x \<noteq> in_features l then Inl RuntimeError
      else Inr \<lparr>nrows = nrows x, ncols = out_features l,
                rows = map (\<lambda>r. map2 (\<lambda>w b. dot r w + b) (weight l) (bias l)) (rows x)\<rparr>)"

definition relu :: "tensor \<Rightarrow> tensor" where
  "relu x = x\<lparr>rows := map (map (max 0)) (rows x)\<rparr>"

text \<open>\<^verbatim>\<open>Smoke_model.__init__(self, hidden_dim, num_classes)\<close> and \<^verbatim>\<open>forward\<close>.\<close>

record Smoke_model =
  l1 :: linear
  l2 :: linear

definition Smoke_model_init ::
  "nat \<Rightarrow> nat \<Rightarrow> (nat \<Rightarrow> nat \<Rightarrow> nat \<Rightarrow> real) \<Rightarrow> (nat \<Rightarrow> nat \<Rightarrow> real) \<Rightarrow> Smoke_model" where
  "Smoke_model_init hidden n_classes winit binit =
     \<lparr>l1 = Linear_init 512 hidden (winit 1) (binit 1),
      l2 = Linear_init hidden n_classes (winit 2) (binit 2)\<rparr>"

definition forward :: "Smoke_model \<Rightarrow> tensor \<Rightarrow> tensor \<Rightarrow> pyerror + tensor" where
  "forward self text_embedding image_embedding =
     (case tensor_mul text_embedding image_embedding of
        Inl e \<Rightarrow> Inl e
      | Inr combined_embedding \<Rightarrow>
          (case linear_forward (l1 self) combined_embedding of
             Inl e \<Rightarrow> Inl e
           | Inr output \<Rightarrow> linear_forward (l2 self) (relu output)))"

text \<open>The configuration of the script: \<^verbatim>\<open>hidden_dim = 256\<close>, \<^verbatim>\<open>num_classes = 4\<close>.\<close>

definition hidden_dim :: nat where
  "hidden_dim = 256"

definition num_classes_script :: nat where
  "num_classes_script = 4"

definition smoke_model :: "(nat \<Rightarrow> nat \<Rightarrow> nat \<Rightarrow> real) \<Rightarrow> (nat \<Rightarrow> nat \<Rightarrow> real) \<Rightarrow> Smoke_model" where
  "smoke_model winit binit = Smoke_model_init hidden_dim num_classes_script winit binit"

section \<open>Evaluation: thresholding the logits\<close>

text \<open>
  \<^verbatim>\<open>predictions = torch.sigmoid(outputs) > 0.5\<close>, entry by entry. \<open>sig\<close> is the function
  that \<^verbatim>\<open>torch.sigmoid\<close> computes on a float; \<open>sigmoid\<close> is the real function it
  approximates.
\<close>

definition predictions :: "(real \<Rightarrow> real) \<Rightarrow> tensor \<Rightarrow> bool list list" where
  "predictions sig outputs = map (map (\<lambda>x. sig x > 0.5)) (rows outputs)"

definition sigmoid :: "real \<Rightarrow> real" where
  "sigmoid x = 1 / (1 + exp (- x))"

section \<open>Batches of the \<^verbatim>\<open>DataLoader\<close>\<close>

text \<open>
  \<^verbatim>\<open>__getitem__\<close> returns the Python tuple \<^verbatim>\<open>(image, label_vector)\<close>; \<open>fields\<close> lists the
  components of that tuple in order.
\<close>

datatype 'img field = Image 'img | LabelVector "real list"

definition fields :: "'img \<times> real list \<Rightarrow> 'img field list" where
  "fields sample = [Image (fst sample), LabelVector (snd sample)]"

text \<open>
  The loader fetches the samples of a batch of indices, \<^verbatim>\<open>[dataset[i] for i in batch]\<close>;
  the first exception ends the fetch.
\<close>

fun fetch ::
  "(string \<Rightarrow> pyerror + 'img) \<Rightarrow> 'img MultiLabelImageDataset \<Rightarrow> int list
     \<Rightarrow> pyerror + ('img \<times> real list) list" where
  "fetch image_open ds [] = Inr []"
| "fetch image_open ds (idx # rest) =
     (case getitem image_open ds idx of
        Inl e \<Rightarrow> Inl e
      | Inr sample \<Rightarrow>
          (case fetch image_open ds rest of
             Inl e \<Rightarrow> Inl e
           | Inr samples \<Rightarrow> Inr (sample # samples)))"

text \<open>
  \<^verbatim>\<open>default_collate\<close> on a batch of tuples: it reads \<^verbatim>\<open>batch[0]\<close>, requires all tuples to
  have the size of the first, and collates the batch field by field (\<^verbatim>\<open>zip(*batch)\<close>).
  \<open>stack\<close> collates one field over the batch; it raises for what it cannot stack, a
  PIL image for one.
\<close>

fun collate_fields :: "('c list \<Rightarrow> pyerror + 'b) \<Rightarrow> 'c list list \<Rightarrow> pyerror + 'b list" where
  "collate_fields stack [] = Inr []"
| "collate_fields stack (column # rest) =
     (case stack column of
        Inl e \<Rightarrow> Inl e
      | Inr x \<Rightarrow>
          (case collate_fields stack rest of
             Inl e \<Rightarrow> Inl e
           | Inr xs \<Rightarrow> Inr (x # xs)))"

definition default_collate :: "('c list \<Rightarrow> pyerror + 'b) \<Rightarrow> 'c list list \<Rightarrow> pyerror + 'b list" where
  "default_collate stack batch =
     (case batch of
        [] \<Rightarrow> Inl IndexError
      | elem # _ \<Rightarrow>
          (if list_all (\<lambda>sample. length sample = length elem) batch
           then collate_fields stack (transpose batch)
           else Inl RuntimeError))"

text \<open>
  The target list \<^verbatim>\<open>images, text_tokens, labels\<close> of the two \<^verbatim>\<open>for\<close> loops unpacks a
  sequence of exactly three elements; any other length raises \<^verbatim>\<open>ValueError\<close>.
\<close>

fun unpack3 :: "'a list \<Rightarrow> pyerror + ('a \<times> 'a \<times> 'a)" where
  "unpack3 [a, b, c] = Inr (a, b, c)"
| "unpack3 _ = Inl ValueError"

text \<open>One step of \<^verbatim>\<open>for images, text_tokens, labels in loader\<close>, for a batch of indices.\<close>

definition next_batch ::
  "(string \<Rightarrow> pyerror + 'img) \<Rightarrow> ('img field list \<Rightarrow> pyerror + 'b) \<Rightarrow> 'img MultiLabelImageDataset
     \<Rightarrow> int list \<Rightarrow> pyerror + ('b \<times> 'b \<times> 'b)" where
  "next_batch image_open stack ds idxs =
     (case fetch image_open ds idxs of
        Inl e \<Rightarrow> Inl e
      | Inr samples \<Rightarrow>
          (case default_collate stack (map fields samples) of
             Inl e \<Rightarrow> Inl e
           | Inr batch \<Rightarrow> unpack3 batch))"

text \<open>
  The batches of indices of one pass (\<^verbatim>\<open>drop_last=False\<close>), and \<^verbatim>\<open>len(loader)\<close>, the
  number of batches, computed from the number of samples.
\<close>

function chunks :: "nat \<Rightarrow> 'a list \<Rightarrow> 'a list list" where
  "chunks n xs = (if n = 0 \<or> xs = [] then [] else take n xs # chunks n (drop n xs))"
  by pat_completeness auto
termination
  by (relation "measure (\<lambda>(n, xs). length xs)") auto

declare chunks.simps [simp del]

definition len_DataLoader :: "nat \<Rightarrow> nat \<Rightarrow> nat" where
  "len_DataLoader n_samples bs = (n_samples + bs - 1) div bs"

definition batch_size :: nat where
  "batch_size = 16"

text \<open>
  \<^verbatim>\<open>random_split(dataset, lengths)\<close>: the lengths must add up to the size of the dataset;
  the subsets are consecutive slices of a random permutation \<open>perm\<close> of the indices.
\<close>

definition random_split ::
  "int list \<Rightarrow> nat \<Rightarrow> int \<Rightarrow> int \<Rightarrow> int \<Rightarrow> pyerror + (int list \<times> int list \<times> int list)" where
  "random_split perm n a b c =
     (if a < 0 \<or> b < 0 \<or> c < 0 \<or> a + b + c \<noteq> int n then Inl ValueError
      else Inr (take (nat a) perm, take (nat b) (drop (nat a) perm), drop (nat a + nat b) perm))"

section \<open>The training loop and the evaluation loop\<close>

text \<open>
  \<^verbatim>\<open>x / k\<close> for a float and an integer: division by zero raises.
\<close>

definition py_truediv :: "real \<Rightarrow> nat \<Rightarrow> pyerror + real" where
  "py_truediv x k = (if k = 0 then Inl ZeroDivisionError else Inr (x / real k))"

text \<open>
  The inner loop of training. \<open>train_step\<close> stands for the body after the unpacking
  (encoders, forward pass, loss, backward pass, optimiser step): it takes the state of model
  and optimiser and returns the new state with \<^verbatim>\<open>loss.item()\<close>, or raises.
\<close>

fun train_batches ::
  "(string \<Rightarrow> pyerror + 'img) \<Rightarrow> ('img field list \<Rightarrow> pyerror + 'b)
     \<Rightarrow> ('st \<Rightarrow> 'b \<Rightarrow> 'b \<Rightarrow> 'b \<Rightarrow> pyerror + ('st \<times> real))
     \<Rightarrow> 'img MultiLabelImageDataset \<Rightarrow> 'st \<Rightarrow> real \<Rightarrow> int list list \<Rightarrow> pyerror + ('st \<times> real)" where
  "train_batches image_open stack train_step ds st train_loss [] = Inr (st, train_loss)"
| "train_batches image_open stack train_step ds st train_loss (idxs # rest) =
     (case next_batch image_open stack ds idxs of
        Inl e \<Rightarrow> Inl e
      | Inr (images, text_tokens, labels) \<Rightarrow>
          (case train_step st images text_tokens labels of
             Inl e \<Rightarrow> Inl e
           | Inr (st', loss) \<Rightarrow>
               train_batches image_open stack train_step ds st' (train_loss + loss) rest))"

text \<open>
  The loop over the epochs. \<open>shuffle epoch\<close> is the random order of the pass
  (\<^verbatim>\<open>shuffle=True\<close>); the result lists the average losses printed.
\<close>

fun train_epochs ::
  "(string \<Rightarrow> pyerror + 'img) \<Rightarrow> ('img field list \<Rightarrow> pyerror + 'b)
     \<Rightarrow> ('st \<Rightarrow> 'b \<Rightarrow> 'b \<Rightarrow> 'b \<Rightarrow> pyerror + ('st \<times> real))
     \<Rightarrow> (nat \<Rightarrow> int list \<Rightarrow> int list) \<Rightarrow> 'img MultiLabelImageDataset \<Rightarrow> int list \<Rightarrow> 'st
     \<Rightarrow> nat list \<Rightarrow> pyerror + ('st \<times> real list)" where
  "train_epochs image_open stack train_step shuffle ds train_indices st [] = Inr (st, [])"
| "train_epochs image_open stack train_step shuffle ds train_indices st (epoch # rest) =
     (case train_batches image_open stack train_step ds st 0
             (chunks batch_size (shuffle epoch train_indices)) of
        Inl e \<Rightarrow> Inl e
      | Inr (st', train_loss) \<Rightarrow>
          (case py_truediv train_loss (len_DataLoader (length train_indices) batch_size) of
             Inl e \<Rightarrow> Inl e
           | Inr avg_train_loss \<Rightarrow>
               (case train_epochs image_open stack train_step shuffle ds train_indices st' rest of
                  Inl e \<Rightarrow> Inl e
                | Inr (st'', printed) \<Rightarrow> Inr (st'', avg_train_loss # printed))))"

definition num_epochs :: nat where
  "num_epochs = 10"

text \<open>The script from the split to the end of training.\<close>

definition script_training ::
  "(string \<Rightarrow> pyerror + 'img) \<Rightarrow> ('img field list \<Rightarrow> pyerror + 'b)
     \<Rightarrow> ('st \<Rightarrow> 'b \<Rightarrow> 'b \<Rightarrow> 'b \<Rightarrow> pyerror + ('st \<times> real))
     \<Rightarrow> (nat \<Rightarrow> int list \<Rightarrow> int list) \<Rightarrow> int list \<Rightarrow> 'img MultiLabelImageDataset \<Rightarrow> 'st
     \<Rightarrow> pyerror + ('st \<times> real list)" where
  "script_training image_open stack train_step shuffle perm ds st =
     (case random_split perm (len_dataset ds) (train_size (len_dataset ds))
             (val_size (len_dataset ds)) (test_size (len_dataset ds)) of
        Inl e \<Rightarrow> Inl e
      | Inr (train_indices, val_indices, test_indices) \<Rightarrow>
          train_epochs image_open stack train_step shuffle ds train_indices st [0..<num_epochs])"

text \<open>
  The evaluation loop over the batches of the test loader. \<open>infer\<close> stands for the
  encoders and the forward pass, \<open>label_rows\<close> for \<^verbatim>\<open>labels.cpu().numpy()\<close>.
\<close>

fun eval_batches ::
  "(string \<Rightarrow> pyerror + 'img) \<Rightarrow> ('img field list \<Rightarrow> pyerror + 'b)
     \<Rightarrow> ('b \<Rightarrow> 'b \<Rightarrow> pyerror + tensor) \<Rightarrow> (real \<Rightarrow> real) \<Rightarrow> ('b \<Rightarrow> real list list)
     \<Rightarrow> 'img MultiLabelImageDataset \<Rightarrow> real list list \<times> bool list list \<Rightarrow> int list list
     \<Rightarrow> pyerror + (real list list \<times> bool list list)" where
  "eval_batches image_open stack infer sig label_rows ds acc [] = Inr acc"
| "eval_batches image_open stack infer sig label_rows ds acc (idxs # rest) =
     (case next_batch image_open stack ds idxs of
        Inl e \<Rightarrow> Inl e
      | Inr (images, text_tokens, labels) \<Rightarrow>
          (case infer images text_tokens of
             Inl e \<Rightarrow> Inl e
           | Inr outputs \<Rightarrow>
               eval_batches image_open stack infer sig label_rows ds
                 (fst acc @ label_rows labels, snd acc @ predictions sig outputs) rest))"

section \<open>Example inputs\<close>

text \<open>
  \<^verbatim>\<open>posixpath.join\<close> for two components, and a label file of four lines, used to
  run the definitions on concrete inputs.
\<close>

definition posix_join :: "string \<Rightarrow> string \<Rightarrow> string" where
  "posix_join a b =
     (if b \<noteq> [] \<and> hd b = CHR ''/'' then b
      else if a = [] \<or> last a = CHR ''/'' then a @ b
      else a @ ''/'' @ b)"

definition example_file :: "string list" where
  "example_file = [''img1.jpg fire smoke\<newline>'', ''img2.jpg none\<newline>'', ''img3.jpg'', ''img4.jpg haze  fire\<newline>'']"

definition example_fs :: "string \<rightharpoonup> string list" where
  "example_fs = [''labels.txt'' \<mapsto> example_file]"

definition example_dataset :: "unit MultiLabelImageDataset" where
  "example_dataset =
     \<lparr>images_path = [''data/img1.jpg'', ''data/img2.jpg'', ''data/img3.jpg'', ''data/img4.jpg''],
      images_labels = [[''fire'', ''smoke''], [''none''], [], [''haze'', ''fire'']],
      transform = None, num_classes = 4, label_map = label_map_init\<rparr>"

definition example_blank_file :: "string list" where
  "example_blank_file = [''img1.jpg fire\<newline>'', '' \<newline>'', ''img2.jpg\<newline>'']"

text \<open>A row of two logits, and two embeddings of dimension 512 for a batch of one.\<close>

definition example_logits :: tensor where
  "example_logits = \<lparr>nrows = 1, ncols = 2, rows = [[0, 3]]\<rparr>"

definition example_emb_a :: tensor where
  "example_emb_a = \<lparr>nrows = 1, ncols = 512, rows = [map real [0..<512]]\<rparr>"

definition example_emb_b :: tensor where
  "example_emb_b = \<lparr>nrows = 1, ncols = 512, rows = [replicate 512 2]\<rparr>"

section \<open>Properties of the dataset\<close>

lemma blank_line_no_tokens:
  assumes "\<forall>c\<in>set s. isspace c"
  shows "split (strip s) = []"
proof -
  have h: "dropWhile isspace s = []"
    unfolding dropWhile_eq_Nil_conv using assms .
  show ?thesis unfolding strip_def split_def h by simp
qed

lemma parse_lines_Inr:
  "parse_lines join d ls ps labs = Inr (ps', labs') \<Longrightarrow>
     ps' = ps @ map (\<lambda>l. join d (hd (split (strip l)))) ls \<and>
     labs' = labs @ map (\<lambda>l. tl (split (strip l))) ls \<and>
     (\<forall>l\<in>set ls. split (strip l) \<noteq> [])"
proof (induction ls arbitrary: ps labs)
  case Nil
  then show ?case by simp
next
  case (Cons l ls)
  from Cons.prems obtain n labels where
    tok: "split (strip l) = n # labels" and
    rest: "parse_lines join d ls (ps @ [join d n]) (labs @ [labels]) = Inr (ps', labs')"
    by (auto split: list.splits)
  from Cons.IH[OF rest] tok show ?case by simp
qed

lemma parse_lines_blank:
  "\<exists>l\<in>set ls. split (strip l) = [] \<Longrightarrow> parse_lines join d ls ps labs = Inl IndexError"
  by (induction ls arbitrary: ps labs) (auto split: list.splits)

lemma parse_lines_total:
  "\<forall>l\<in>set ls. split (strip l) \<noteq> [] \<Longrightarrow> \<exists>r. parse_lines join d ls ps labs = Inr r"
  by (induction ls arbitrary: ps labs) (auto split: list.splits)

lemma set_labels_spec:
  "\<forall>l k. map_of lm l = Some k \<longrightarrow> k < length v \<Longrightarrow>
   \<exists>v'. set_labels lm v labels = Inr v' \<and> length v' = length v \<and>
     (\<forall>k<length v. v' ! k = (if \<exists>l\<in>set labels. map_of lm l = Some k then 1 else v ! k))"
proof (induction labels arbitrary: v)
  case Nil
  then show ?case by simp
next
  case (Cons a labels)
  show ?case
  proof (cases "map_of lm a")
    case None
    with Cons.IH[OF Cons.prems] show ?thesis by auto
  next
    case (Some k)
    with Cons.prems have k: "k < length v" by blast
    have "\<forall>l k'. map_of lm l = Some k' \<longrightarrow> k' < length (v[k := 1])"
      using Cons.prems by simp
    from Cons.IH[OF this] obtain v' where
      v': "set_labels lm (v[k := 1]) labels = Inr v'" "length v' = length v"
      "\<forall>j<length v. v' ! j = (if \<exists>l\<in>set labels. map_of lm l = Some j then 1 else v[k := 1] ! j)"
      by auto
    show ?thesis using Some k v' by (auto simp: nth_list_update)
  qed
qed

lemma example_init:
  "MultiLabelImageDataset_init posix_join example_fs ''data'' ''labels.txt'' None 4 = Inr example_dataset"
  by (simp add: MultiLabelImageDataset_init_def example_fs_def example_file_def example_dataset_def
      strip_def split_def isspace_def posix_join_def)

lemma set_labels_filter:
  "set_labels lm v (filter (\<lambda>l. map_of lm l \<noteq> None) labels) = set_labels lm v labels"
  by (induction labels arbitrary: v) (auto split: option.splits)

lemma list_get_nth: "i < length xs \<Longrightarrow> list_get xs (int i) = Inr (xs ! i)"
  by (simp add: list_get_def)

lemma init_fields:
  assumes "MultiLabelImageDataset_init join fs images_dir labels_file tr nc = Inr ds"
    and "fs labels_file = Some file"
  shows "images_path ds = map (\<lambda>l. join images_dir (hd (split (strip l)))) file"
    and "images_labels ds = map (\<lambda>l. tl (split (strip l))) file"
    and "\<forall>l\<in>set file. split (strip l) \<noteq> []"
    and "transform ds = tr" and "num_classes ds = nc" and "label_map ds = label_map_init"
proof -
  from assms obtain paths labs where
    p: "parse_lines join images_dir file [] [] = Inr (paths, labs)" and
    ds: "ds = \<lparr>images_path = paths, images_labels = labs, transform = tr,
                    num_classes = nc, label_map = label_map_init\<rparr>"
    by (auto simp: MultiLabelImageDataset_init_def split: sum.splits)
  from parse_lines_Inr[OF p] ds
  show "images_path ds = map (\<lambda>l. join images_dir (hd (split (strip l)))) file"
    and "images_labels ds = map (\<lambda>l. tl (split (strip l))) file"
    and "\<forall>l\<in>set file. split (strip l) \<noteq> []"
    and "transform ds = tr" and "num_classes ds = nc" and "label_map ds = label_map_init"
    by simp_all
qed

lemma getitem_init:
  assumes init: "MultiLabelImageDataset_init join fs images_dir labels_file tr 4 = Inr ds"
    and lf: "fs labels_file = Some file"
    and i: "i < length file"
    and img: "image_open (images_path ds ! i) = Inr img"
    and tr: "(case tr of None \<Rightarrow> Inr img | Some t \<Rightarrow> t img) = Inr img'"
  shows "getitem image_open ds (int i) =
     (case set_labels label_map_init [0, 0, 0, 0] (tl (split (strip (file ! i)))) of
        Inl e \<Rightarrow> Inl e | Inr v \<Rightarrow> Inr (img', v))"
proof -
  note f = init_fields[OF init lf]
  have 1: "list_get (images_path ds) (int i) = Inr (images_path ds ! i)"
    using i f(1) by (simp add: list_get_nth)
  have 2: "list_get (images_labels ds) (int i) = Inr (tl (split (strip (file ! i))))"
    using i f(2) by (simp add: list_get_nth)
  have 3: "torch_zeros (num_classes ds) = Inr [0, 0, 0, 0]"
    using f(5) by (simp add: torch_zeros_def numeral_eq_Suc)
  show ?thesis
    using img tr
    by (cases tr) (auto simp: getitem_def 1 2 3 f(4) f(6) split: sum.splits)
qed

lemma label_map_init_bound: "map_of label_map_init l = Some k \<Longrightarrow> k < 4"
  by (auto simp: label_map_init_def split: if_splits)

lemma set_labels_init:
  "\<exists>v. set_labels label_map_init [0, 0, 0, 0] labels = Inr v \<and> length v = 4 \<and>
     (\<forall>k<4. v ! k = (if \<exists>l\<in>set labels. map_of label_map_init l = Some k then 1 else 0))"
proof -
  have b: "\<forall>l k. map_of label_map_init l = Some k \<longrightarrow> k < length [0, 0, 0, 0 :: real]"
    by (auto dest: label_map_init_bound)
  from set_labels_spec[OF b, of labels] obtain v' where
    v: "set_labels label_map_init [0, 0, 0, 0] labels = Inr v'" "length v' = 4"
    and n: "\<forall>k<4. v' ! k = (if \<exists>l\<in>set labels. map_of label_map_init l = Some k then 1
                             else [0, 0, 0, 0 :: real] ! k)"
    by auto
  have z: "[0, 0, 0, 0 :: real] ! k = 0" if "k < 4" for k
  proof -
    from that have "k = 0 \<or> k = 1 \<or> k = 2 \<or> k = 3" by arith
    then show ?thesis by auto
  qed
  from v n z show ?thesis by auto
qed

text \<open>
  Claim C1. For a dataset built with the default \<^verbatim>\<open>num_classes=4\<close>, and for every line
  \<open>i\<close> of the label file (whose image opens), \<open>getitem\<close> returns a label vector of
  length 4 that is 1 at exactly the indices \<open>k\<close> such that a label token of the line (a
  token after the file name) is mapped to \<open>k\<close> by the vocabulary fire, smoke, cloud,
  none (0, 1, 2, 3), and 0 at every other index; with no label token the vector is
  all zeros.
\<close>

theorem label_vector_multi_hot:
  assumes init: "MultiLabelImageDataset_init join fs images_dir labels_file tr 4 = Inr ds"
    and lf: "fs labels_file = Some file"
    and i: "i < length file"
    and img: "image_open (images_path ds ! i) = Inr img"
    and tr: "(case tr of None \<Rightarrow> Inr img | Some t \<Rightarrow> t img) = Inr img'"
  shows "label_map ds = [(''fire'', 0), (''smoke'', 1), (''cloud'', 2), (''none'', 3)] \<and>
     (\<exists>v. getitem image_open ds (int i) = Inr (img', v) \<and> length v = 4 \<and>
        (\<forall>k<4. v ! k =
           (if \<exists>l\<in>set (tl (split (strip (file ! i)))). map_of (label_map ds) l = Some k
            then 1 else 0)) \<and>
        (tl (split (strip (file ! i))) = [] \<longrightarrow> v = [0, 0, 0, 0]))"
proof -
  let ?labels = "tl (split (strip (file ! i)))"
  have lm: "label_map ds = label_map_init"
    using init_fields(6)[OF init lf] .
  from set_labels_init[of ?labels] obtain v where
    v: "set_labels label_map_init [0, 0, 0, 0] ?labels = Inr v" "length v = 4"
    "\<forall>k<4. v ! k = (if \<exists>l\<in>set ?labels. map_of label_map_init l = Some k then 1 else 0)"
    by blast
  have g: "getitem image_open ds (int i) = Inr (img', v)"
    using getitem_init[where image_open = image_open, OF init lf i img tr] v(1) by simp
  have e: "?labels = [] \<longrightarrow> v = [0, 0, 0, 0]"
    using v(1) by auto
  from lm g v(2,3) e show ?thesis
    by (auto simp: label_map_init_def)
qed

theorem label_vector_multi_hot_witness:
  "MultiLabelImageDataset_init posix_join example_fs ''data'' ''labels.txt'' None 4
     = Inr example_dataset \<and>
   (\<exists>v. getitem (\<lambda>p. Inr ()) example_dataset 0 = Inr ((), v) \<and> length v = 4 \<and>
      v ! 0 = 1 \<and> v ! 1 = 1 \<and> v ! 2 = 0 \<and> v ! 3 = 0)"
proof -
  have lf: "example_fs ''labels.txt'' = Some example_file"
    by (simp add: example_fs_def)
  have i: "0 < length example_file"
    by (simp add: example_file_def)
  have img: "(\<lambda>p. Inr ()) (images_path example_dataset ! 0) = (Inr () :: pyerror + unit)"
    by simp
  have tr: "(case None of None \<Rightarrow> Inr () | Some t \<Rightarrow> t ()) = (Inr () :: pyerror + unit)"
    by simp
  have toks: "tl (split (strip (example_file ! 0))) = [''fire'', ''smoke'']"
    by (simp add: example_file_def strip_def split_def isspace_def)
  from label_vector_multi_hot[where image_open = "\<lambda>p. Inr ()" and img = "()", OF example_init lf i img tr] obtain v where
    g: "getitem (\<lambda>p. Inr ()) example_dataset (int 0) = Inr ((), v)" and l: "length v = 4"
    and n: "\<forall>k<4. v ! k =
           (if \<exists>l\<in>set (tl (split (strip (example_file ! 0)))).
                 map_of (label_map example_dataset) l = Some k
            then 1 else 0)"
    by blast
  have lm: "label_map example_dataset = label_map_init"
    by (simp add: example_dataset_def)
  have "v ! 0 = 1" "v ! 1 = 1" "v ! 2 = 0" "v ! 3 = 0"
    using n unfolding toks lm by (simp_all add: label_map_init_def)
  with g l example_init show ?thesis by simp
qed

text \<open>
  Claim C7. Label tokens outside the vocabulary are ignored when the label vector is
  built: for every line of the label file \<open>getitem\<close> raises nothing on their account
  and returns the vector that the line's known tokens alone give; a line whose label
  tokens are all unknown gives the zero vector.
\<close>

theorem unknown_labels_ignored:
  assumes init: "MultiLabelImageDataset_init join fs images_dir labels_file tr 4 = Inr ds"
    and lf: "fs labels_file = Some file"
    and i: "i < length file"
    and img: "image_open (images_path ds ! i) = Inr img"
    and tr: "(case tr of None \<Rightarrow> Inr img | Some t \<Rightarrow> t img) = Inr img'"
  shows "\<exists>v. getitem image_open ds (int i) = Inr (img', v) \<and>
     set_labels (label_map ds) [0, 0, 0, 0]
       (filter (\<lambda>l. map_of (label_map ds) l \<noteq> None) (tl (split (strip (file ! i))))) = Inr v \<and>
     ((\<forall>l\<in>set (tl (split (strip (file ! i)))). map_of (label_map ds) l = None)
        \<longrightarrow> v = [0, 0, 0, 0])"
proof -
  let ?labels = "tl (split (strip (file ! i)))"
  have lm: "label_map ds = label_map_init"
    using init_fields(6)[OF init lf] .
  from set_labels_init[of ?labels] obtain v where
    v: "set_labels label_map_init [0, 0, 0, 0] ?labels = Inr v"
    by blast
  have g: "getitem image_open ds (int i) = Inr (img', v)"
    using getitem_init[where image_open = image_open, OF init lf i img tr] v by simp
  have f: "set_labels label_map_init [0, 0, 0, 0]
             (filter (\<lambda>l. map_of label_map_init l \<noteq> None) ?labels) = Inr v"
    using v by (simp only: set_labels_filter)
  have z: "v = [0, 0, 0, 0]" if "\<forall>l\<in>set ?labels. map_of label_map_init l = None"
  proof -
    from that have "filter (\<lambda>l. map_of label_map_init l \<noteq> None) ?labels = []"
      by (simp add: filter_empty_conv)
    with f show ?thesis by simp
  qed
  from g f z show ?thesis unfolding lm by blast
qed

theorem unknown_labels_ignored_witness:
  "tl (split (strip (example_file ! 3))) = [''haze'', ''fire''] \<and>
   map_of (label_map example_dataset) ''haze'' = None \<and>
   getitem (\<lambda>p. Inr ()) example_dataset 3 = Inr ((), [1, 0, 0, 0])"
proof -
  have lf: "example_fs ''labels.txt'' = Some example_file"
    by (simp add: example_fs_def)
  have i: "3 < length example_file"
    by (simp add: example_file_def)
  have img: "(\<lambda>p. Inr ()) (images_path example_dataset ! 3) = (Inr () :: pyerror + unit)"
    by simp
  have tr: "(case None of None \<Rightarrow> Inr () | Some t \<Rightarrow> t ()) = (Inr () :: pyerror + unit)"
    by simp
  have toks: "tl (split (strip (example_file ! 3))) = [''haze'', ''fire'']"
    by (simp add: example_file_def strip_def split_def isspace_def)
  have lm: "label_map example_dataset = label_map_init"
    by (simp add: example_dataset_def)
  from unknown_labels_ignored[where image_open = "\<lambda>p. Inr ()" and img = "()", OF example_init lf i img tr] obtain v where
    g: "getitem (\<lambda>p. Inr ()) example_dataset (int 3) = Inr ((), v)" and
    f: "set_labels (label_map example_dataset) [0, 0, 0, 0]
         (filter (\<lambda>l. map_of (label_map example_dataset) l \<noteq> None)
            (tl (split (strip (example_file ! 3))))) = Inr v"
    by blast
  from f have "v = [1, 0, 0, 0]"
    unfolding toks lm by (simp add: label_map_init_def)
  with g toks lm show ?thesis by (simp add: label_map_init_def)
qed

text \<open>
  Claim C8. The dataset holds one sample for each line of the label file, and the
  image path stored for line \<open>i\<close> is \<^verbatim>\<open>os.path.join\<close> of the images directory and the
  first whitespace-delimited token of that line.
\<close>

theorem image_path_is_join:
  assumes init: "MultiLabelImageDataset_init join fs images_dir labels_file tr nc = Inr ds"
    and lf: "fs labels_file = Some file"
    and i: "i < length file"
  shows "len_dataset ds = length file \<and>
     (\<exists>img_name labels. split (strip (file ! i)) = img_name # labels \<and>
        images_path ds ! i = join images_dir img_name \<and> images_labels ds ! i = labels)"
proof -
  note f = init_fields[OF init lf]
  from f(3) i have "split (strip (file ! i)) \<noteq> []" by simp
  then obtain img_name labels where t: "split (strip (file ! i)) = img_name # labels"
    by (cases "split (strip (file ! i))") auto
  from f(1,2) i t show ?thesis by (simp add: len_dataset_def)
qed

theorem image_path_is_join_witness:
  "MultiLabelImageDataset_init posix_join example_fs ''data'' ''labels.txt'' None 4
     = Inr example_dataset \<and>
   split (strip (example_file ! 1)) = [''img2.jpg'', ''none''] \<and>
   images_path example_dataset ! 1 = posix_join ''data'' ''img2.jpg'' \<and>
   len_dataset example_dataset = 4"
proof -
  have lf: "example_fs ''labels.txt'' = Some example_file"
    by (simp add: example_fs_def)
  have i: "1 < length example_file"
    by (simp add: example_file_def)
  have toks: "split (strip (example_file ! 1)) = [''img2.jpg'', ''none'']"
    by (simp add: example_file_def strip_def split_def isspace_def)
  from image_path_is_join[OF example_init lf i] toks example_init
  show ?thesis by (simp add: example_file_def)
qed

text \<open>
  Claim C9. When a line of the label file is empty or holds only whitespace, the
  constructor raises \<^verbatim>\<open>IndexError\<close> (from \<^verbatim>\<open>parts[0]\<close> on the empty token list): it
  returns no dataset, so no sample is produced.
\<close>

theorem blank_line_IndexError:
  assumes lf: "fs labels_file = Some file"
    and blank: "\<exists>line\<in>set file. \<forall>c\<in>set line. isspace c"
  shows "MultiLabelImageDataset_init join fs images_dir labels_file tr nc = Inl IndexError"
proof -
  from blank obtain line where "line \<in> set file" "split (strip line) = []"
    using blank_line_no_tokens by blast
  then have "parse_lines join images_dir file [] [] = Inl IndexError"
    using parse_lines_blank by blast
  with lf show ?thesis by (simp add: MultiLabelImageDataset_init_def)
qed

theorem blank_line_IndexError_witness:
  "(MultiLabelImageDataset_init posix_join [''labels.txt'' \<mapsto> example_blank_file]
      ''data'' ''labels.txt'' None 4 :: pyerror + unit MultiLabelImageDataset) = Inl IndexError"
proof -
  have lf: "[''labels.txt'' \<mapsto> example_blank_file] ''labels.txt'' = Some example_blank_file"
    by simp
  have blank: "\<exists>line\<in>set example_blank_file. \<forall>c\<in>set line. isspace c"
    by (simp add: example_blank_file_def isspace_def)
  from blank_line_IndexError[where fs = "[''labels.txt'' \<mapsto> example_blank_file]"
      and labels_file = "''labels.txt''", OF lf blank]
  show ?thesis .
qed

section \<open>Properties of the split sizes\<close>

lemma bit_length_0: "bit_length 0 = 0"
  by (simp add: bit_length.simps)

lemma bit_length_pos: "0 < n \<Longrightarrow> bit_length n = Suc (bit_length (n div 2))"
  by (subst bit_length.simps) simp

lemma bit_length_bounds:
  "0 < n \<Longrightarrow> 2 ^ (bit_length n - 1) \<le> n \<and> n < 2 ^ bit_length n"
proof (induction n rule: bit_length.induct)
  case (1 n)
  show ?case
  proof (cases "n div 2 = 0")
    case True
    with "1.prems" have "n = 1" by auto
    then show ?thesis by (simp add: bit_length_pos bit_length_0)
  next
    case False
    then have pos: "0 < n div 2" by simp
    from "1.prems" have n0: "n \<noteq> 0" by simp
    from "1.IH"[OF n0 pos] have
      lo: "2 ^ (bit_length (n div 2) - 1) \<le> n div 2" and
      hi: "n div 2 < 2 ^ bit_length (n div 2)" by simp_all
    have L: "bit_length n = Suc (bit_length (n div 2))"
      using "1.prems" by (rule bit_length_pos)
    have Lp: "0 < bit_length (n div 2)"
      using pos by (simp add: bit_length_pos)
    then have e: "(2::nat) ^ bit_length (n div 2) = 2 * 2 ^ (bit_length (n div 2) - 1)"
      by (cases "bit_length (n div 2)") simp_all
    have "2 ^ bit_length (n div 2) \<le> n"
      using lo e by linarith
    moreover have "n < 2 * 2 ^ bit_length (n div 2)"
      using hi by linarith
    ultimately show ?thesis by (simp add: L)
  qed
qed

lemma bit_length_le: "n < 2 ^ k \<Longrightarrow> bit_length n \<le> k"
proof (cases "n = 0")
  case True
  then show ?thesis by (simp add: bit_length_0)
next
  case False
  assume "n < 2 ^ k"
  from False have "2 ^ (bit_length n - 1) \<le> n"
    using bit_length_bounds by simp
  with \<open>n < 2 ^ k\<close> have "(2::nat) ^ (bit_length n - 1) < 2 ^ k" by linarith
  then have "bit_length n - 1 < k" by simp
  then show ?thesis by linarith
qed

lemma round53_exact: "bit_length p \<le> 53 \<Longrightarrow> round53 p = (p, 0)"
  by (simp add: round53_def)

text \<open>The error of rounding is at most half a unit in the last place.\<close>

lemma round53_error:
  assumes "round53 p = (q, s)"
  shows "s = bit_length p - 53"
    and "q * 2 ^ s \<le> p + 2 ^ s div 2"
    and "p \<le> q * 2 ^ s + 2 ^ s div 2"
    and "(2 ^ s div 2) * 2 ^ 53 \<le> p"
proof -
  show s: "s = bit_length p - 53"
    using assms by (auto simp: round53_def Let_def split: if_splits)
  show "q * 2 ^ s \<le> p + 2 ^ s div 2" "p \<le> q * 2 ^ s + 2 ^ s div 2"
    "(2 ^ s div 2) * 2 ^ 53 \<le> p"
  proof -
    consider (exact) "bit_length p \<le> 53" | (inexact) "53 < bit_length p" by linarith
    then have "q * 2 ^ s \<le> p + 2 ^ s div 2 \<and> p \<le> q * 2 ^ s + 2 ^ s div 2 \<and>
        (2 ^ s div 2) * 2 ^ 53 \<le> p"
    proof cases
      case exact
      with assms have "q = p" "s = 0" by (simp_all add: round53_def)
      then show ?thesis by simp
    next
      case inexact
      with s have s1: "0 < s" and L: "bit_length p = s + 53" by simp_all
      define h :: nat where "h = 2 ^ (s - 1)"
      have two: "(2::nat) ^ s = 2 * h"
        using s1 by (cases s) (simp_all add: h_def)
      have hd: "(2::nat) ^ s div 2 = h" by (simp add: two)
      define q0 r where "q0 = p div 2 ^ s" and "r = p mod 2 ^ s"
      have p: "p = q0 * (2 * h) + r"
        unfolding q0_def r_def two[symmetric] using div_mult_mod_eq[of p "2 ^ s"] by simp
      have r: "r < 2 * h"
        unfolding r_def two[symmetric] by simp
      have q: "q = (if h < r \<or> (r = h \<and> odd q0) then q0 + 1 else q0)"
        using assms inexact s by (auto simp: round53_def Let_def q0_def r_def h_def split: if_splits)
      have ppos: "0 < p" using inexact by (cases "p = 0") (simp_all add: bit_length_0)
      from bit_length_bounds[OF ppos] L have "2 ^ (s + 52) \<le> p" by (simp add: add.commute)
      then have lo: "h * 2 ^ 53 \<le> p"
        using s1 by (cases s) (simp_all add: h_def power_add)
      have a: "q * (2 * h) \<le> p + h"
        using q p r by (auto simp: algebra_simps split: if_splits)
      have b: "p \<le> q * (2 * h) + h"
        using q p r by (auto simp: algebra_simps split: if_splits)
      from a b lo show ?thesis by (simp add: two hd)
    qed
    then show "q * 2 ^ s \<le> p + 2 ^ s div 2" "p \<le> q * 2 ^ s + 2 ^ s div 2"
      "(2 ^ s div 2) * 2 ^ 53 \<le> p" by simp_all
  qed
qed

lemma round53_inexact:
  assumes "round53 p = (q, s)" and "0 < s"
  shows "q = (if 2 ^ (s - 1) < p mod 2 ^ s \<or> (p mod 2 ^ s = 2 ^ (s - 1) \<and> odd (p div 2 ^ s))
              then p div 2 ^ s + 1 else p div 2 ^ s)"
  using assms by (auto simp: round53_def Let_def split: if_splits)

text \<open>A multiple of the unit in the last place that is less than half a unit away is
  the result of rounding.\<close>

lemma round53_nearest:
  assumes rd: "round53 p = (q, s)" and s1: "0 < s"
    and x: "x = k * 2 ^ s" and le: "p \<le> x" and near: "x - p < 2 ^ (s - 1)"
  shows "q * 2 ^ s = x"
proof -
  define h :: nat where "h = 2 ^ (s - 1)"
  have two: "(2::nat) ^ s = 2 * h"
    using s1 by (cases s) (simp_all add: h_def)
  have hpos: "0 < h" by (simp add: h_def)
  define q0 r where "q0 = p div (2 * h)" and "r = p mod (2 * h)"
  have q: "q = (if h < r \<or> (r = h \<and> odd q0) then q0 + 1 else q0)"
    using round53_inexact[OF rd s1] unfolding two h_def[symmetric] q0_def r_def .
  define d where "d = x - p"
  have d: "d < h" "p + d = k * (2 * h)"
    using near le x by (simp_all add: d_def h_def two)
  show ?thesis
  proof (cases "d = 0")
    case True
    with d have p: "p = k * (2 * h)" by simp
    have "q0 = k" "r = 0" using hpos by (simp_all add: q0_def r_def p)
    with q hpos have "q = k" by auto
    then show ?thesis by (simp add: x)
  next
    case False
    with d have "0 < k" by (cases k) auto
    then obtain k' where k: "k = Suc k'" by (cases k) auto
    have p: "p = k' * (2 * h) + (2 * h - d)"
      using d k False by (simp add: algebra_simps)
    have rem: "2 * h - d < 2 * h" using False hpos by linarith
    have "q0 = k'"
      unfolding q0_def p using rem by simp
    moreover have "r = 2 * h - d"
      unfolding r_def p using rem by simp
    moreover have "h < 2 * h - d" using d(1) by linarith
    ultimately have "q = k" using q k by simp
    then show ?thesis by (simp add: x)
  qed
qed

lemma float_of_nat_small: "n < 2 ^ 53 \<Longrightarrow> float_of_nat n = \<lparr>mant = n, expo = 0\<rparr>"
  by (simp add: float_of_nat_def round53_exact bit_length_le)

lemma int_of_float_mul:
  assumes C: "C < 2 ^ 53" and n: "n < 2 ^ 49" and t: "53 \<le> t"
    and rd: "round53 (C * n) = (q, s)"
  shows "int_of_float (float_mul \<lparr>mant = C, expo = - int t\<rparr> (float_of_nat n))
           = int (q * 2 ^ s div 2 ^ t)"
proof -
  have n53: "n < 2 ^ 53"
    using n by (rule less_le_trans) simp
  have "C * n < 2 ^ 53 * 2 ^ 49"
    using C n by (metis mult_strict_mono' zero_le)
  then have "C * n < 2 ^ 102" by simp
  then have "bit_length (C * n) \<le> 102" by (rule bit_length_le)
  with round53_error(1)[OF rd] have s: "s \<le> 49" by simp
  with t have st: "s < t" by simp
  have fm: "float_mul \<lparr>mant = C, expo = - int t\<rparr> (float_of_nat n)
      = \<lparr>mant = q, expo = - int t + int s\<rparr>"
    using rd by (simp add: float_mul_def float_of_nat_small[OF n53])
  have e: "nat (int t - int s) = t - s" by simp
  have "(2::nat) ^ t = 2 ^ s * 2 ^ (t - s)"
    using st by (simp add: power_add[symmetric])
  then have "q * 2 ^ s div 2 ^ t = q div 2 ^ (t - s)"
    by (simp add: mult.commute)
  then show ?thesis
    using st by (simp add: fm int_of_float_def e)
qed

lemma train_arith:
  fixes R p e n T F :: nat
  assumes a: "R \<le> p + e" and b: "p \<le> R + e" and c: "e * 9007199254740992 \<le> p"
    and p: "p = 6305039478318694 * n" and n: "n < 562949953421312"
    and t1: "T * 9007199254740992 \<le> R" and t2: "R < (T + 1) * 9007199254740992"
    and f1: "10 * F \<le> 7 * n" and f2: "7 * n \<le> 10 * F + 9"
  shows "T \<le> F" and "F \<le> T + 1" and "10 * F + 1 \<le> 7 * n \<Longrightarrow> T = F"
proof -
  have t2': "R < T * 9007199254740992 + 9007199254740992" using t2 by simp
  have e10: "10 * e \<le> 7 * n" using c p by linarith
  have lowR: "63050394783186944 * n \<le> 10 * R + 11 * n" using b p e10 by linarith
  have uppR: "10 * R \<le> 63050394783186944 * n + 3 * n" using a p e10 by linarith
  show u: "T \<le> F" using uppR t1 f2 n by linarith
  show "F \<le> T + 1" using lowR t2' f1 n by linarith
  show "T = F" if "10 * F + 1 \<le> 7 * n"
  proof -
    have "F \<le> T" using lowR t2' that n by linarith
    with u show ?thesis by simp
  qed
qed

lemma val_arith:
  fixes R p e n T F :: nat
  assumes a: "R \<le> p + e" and b: "p \<le> R + e" and c: "e * 9007199254740992 \<le> p"
    and p: "p = 5404319552844595 * n" and n: "n < 562949953421312"
    and t1: "T * 36028797018963968 \<le> R" and t2: "R < (T + 1) * 36028797018963968"
    and f1: "20 * F \<le> 3 * n" and f2: "3 * n \<le> 20 * F + 19"
  shows "T \<le> F" and "20 * F + 1 \<le> 3 * n \<Longrightarrow> T = F"
proof -
  have t2': "R < T * 36028797018963968 + 36028797018963968" using t2 by simp
  have e5: "5 * e \<le> 3 * n" using c p by linarith
  have lowR: "108086391056891904 * n \<le> 20 * R + 16 * n" using b p e5 by linarith
  have uppR: "20 * R \<le> 108086391056891904 * n + 8 * n" using a p e5 by linarith
  show u: "T \<le> F" using uppR t1 f2 n by linarith
  show "T = F" if "20 * F + 1 \<le> 3 * n"
  proof -
    have "F \<le> T" using lowR t2' that n by linarith
    with u show ?thesis by simp
  qed
qed

lemma div_bounds:
  fixes R c :: nat
  assumes "0 < c"
  shows "R div c * c \<le> R" and "R < (R div c + 1) * c"
proof -
  show "R div c * c \<le> R" by simp
  have "R < c + R div c * c" using assms by (rule dividend_less_div_times)
  then show "R < (R div c + 1) * c" by (simp add: algebra_simps)
qed

lemma train_size_bounds:
  assumes n: "n < 2 ^ 49"
  shows "train_size n \<le> int (7 * n div 10)"
    and "int (7 * n div 10) \<le> train_size n + 1"
    and "\<not> 10 dvd n \<Longrightarrow> train_size n = int (7 * n div 10)"
proof -
  obtain q s where rd: "round53 (6305039478318694 * n) = (q, s)"
    by (cases "round53 (6305039478318694 * n)") auto
  define R e T F where "R = q * 2 ^ s" and "e = (2::nat) ^ s div 2"
    and "T = R div 9007199254740992" and "F = 7 * n div 10"
  have ts: "train_size n = int T"
    using int_of_float_mul[of 6305039478318694 n 53 q s] n rd
    by (simp add: train_size_def double_0_7_def T_def R_def)
  note err = round53_error[OF rd]
  have a: "R \<le> 6305039478318694 * n + e" and b: "6305039478318694 * n \<le> R + e"
    and c: "e * 9007199254740992 \<le> 6305039478318694 * n"
    using err(2,3,4) by (simp_all add: R_def e_def)
  have n': "n < 562949953421312" using n by simp
  have t1: "T * 9007199254740992 \<le> R" and t2: "R < (T + 1) * 9007199254740992"
    unfolding T_def by (rule div_bounds, simp)+
  have f1: "10 * F \<le> 7 * n" and f2: "7 * n \<le> 10 * F + 9"
    unfolding F_def by presburger+
  note ar = train_arith[OF a b c refl n' t1 t2 f1 f2]
  show "train_size n \<le> int (7 * n div 10)"
    using ar(1) by (simp add: ts F_def)
  show "int (7 * n div 10) \<le> train_size n + 1"
    using ar(2) unfolding ts F_def by linarith
  show "train_size n = int (7 * n div 10)" if "\<not> 10 dvd n"
  proof -
    from that have "10 * F + 1 \<le> 7 * n" unfolding F_def by presburger
    from ar(3)[OF this] show ?thesis by (simp add: ts F_def)
  qed
qed

lemma val_size_exact:
  assumes n: "n < 2 ^ 49"
  shows "val_size n = int (3 * n div 20)"
proof -
  obtain q s where rd: "round53 (5404319552844595 * n) = (q, s)"
    by (cases "round53 (5404319552844595 * n)") auto
  define p R e T F where "p = 5404319552844595 * n" and "R = q * 2 ^ s"
    and "e = (2::nat) ^ s div 2"
    and "T = R div 36028797018963968" and "F = 3 * n div 20"
  have vs: "val_size n = int T"
    using int_of_float_mul[of 5404319552844595 n 55 q s] n rd
    by (simp add: val_size_def double_0_15_def T_def R_def)
  note err = round53_error[OF rd]
  have a: "R \<le> 5404319552844595 * n + e" and b: "5404319552844595 * n \<le> R + e"
    and c: "e * 9007199254740992 \<le> 5404319552844595 * n"
    using err(2,3,4) by (simp_all add: R_def e_def)
  have n': "n < 562949953421312" using n by simp
  have t1: "T * 36028797018963968 \<le> R" and t2: "R < (T + 1) * 36028797018963968"
    unfolding T_def by (rule div_bounds, simp)+
  have f1: "20 * F \<le> 3 * n" and f2: "3 * n \<le> 20 * F + 19"
    unfolding F_def by presburger+
  note ar = val_arith[OF a b c refl n' t1 t2 f1 f2]
  have "T = F"
  proof (cases "20 * F + 1 \<le> 3 * n")
    case True
    then show ?thesis by (rule ar(2))
  next
    case False
    with f1 have eq: "3 * n = 20 * F" by linarith
    show ?thesis
    proof (cases "n = 0")
      case True
      with eq ar(1) show ?thesis by simp
    next
      case False
      with eq have "20 \<le> n" by presburger
      then have big: "2 ^ 53 \<le> p" by (simp add: p_def)
      have ppos: "0 < p" using big by (cases "p = 0") simp_all
      have "\<not> bit_length p \<le> 53"
      proof
        assume "bit_length p \<le> 53"
        then have "(2::nat) ^ bit_length p \<le> 2 ^ 53" by (rule power_increasing) simp
        with bit_length_bounds[OF ppos] big show False by linarith
      qed
      with err(1) have s1: "0 < s" and L: "bit_length p = s + 53"
        by (simp_all add: p_def)
      define h :: nat where "h = 2 ^ (s - 1)"
      have two: "(2::nat) ^ s = 2 * h"
        using s1 by (cases s) (simp_all add: h_def)
      from bit_length_bounds[OF ppos] L have "p < 2 ^ (s + 53)" by simp
      also have "(2::nat) ^ (s + 53) = h * 18014398509481984"
        by (simp add: power_add two)
      finally have ph: "5404319552844595 * n < h * 18014398509481984"
        by (simp add: p_def)
      have "5404319552844595 * n < 2 ^ 53 * 2 ^ 49"
        using n' by simp
      then have "p < 2 ^ 102" by (simp add: p_def)
      then have "bit_length p \<le> 102" by (rule bit_length_le)
      with L have s55: "s \<le> 55" by simp
      define x where "x = F * 36028797018963968"
      have "(2::nat) ^ 55 = 2 ^ (55 - s) * 2 ^ s"
        using s55 by (simp add: power_add[symmetric])
      then have xk: "x = (F * 2 ^ (55 - s)) * 2 ^ s"
        by (simp add: x_def)
      have px: "5404319552844595 * n \<le> x" and dx: "x - 5404319552844595 * n < h"
        using eq ph by (simp_all add: x_def)
      have "q * 2 ^ s = x"
        using round53_nearest[OF rd s1 xk px] dx by (simp add: h_def)
      then show ?thesis by (simp add: T_def R_def x_def)
    qed
  qed
  then show ?thesis by (simp add: vs F_def)
qed

lemma bit_length_numeral:
  "bit_length (numeral (Num.Bit0 k)) = Suc (bit_length (numeral k))"
  "bit_length (numeral (Num.Bit1 k)) = Suc (bit_length (numeral k))"
  "bit_length 1 = 1" "bit_length 0 = 0" "bit_length (Suc 0) = 1"
  by (subst bit_length.simps, simp)+

lemma floor_7_10: "\<lfloor>0.7 * real n\<rfloor> = int (7 * n div 10)"
proof -
  have "0.7 * real n = real (7 * n) / real 10" by simp
  then show ?thesis by (simp only: floor_divide_of_nat_eq)
qed

lemma floor_15_100: "\<lfloor>0.15 * real n\<rfloor> = int (3 * n div 20)"
proof -
  have "0.15 * real n = real (3 * n) / real 20" by simp
  then show ?thesis by (simp only: floor_divide_of_nat_eq)
qed

text \<open>
  The product \<^verbatim>\<open>0.7 * 90\<close> is the double \<^verbatim>\<open>62.99999999999999\<close>, so
  \<^verbatim>\<open>int(0.7 * 90)\<close> is 62, while the floor of 0.7 times 90 is 63.
\<close>

theorem split_sizes_counterexample: "train_size 90 \<noteq> \<lfloor>0.7 * real (90::nat)\<rfloor>"
proof -
  have "train_size 90 = 62"
    by (simp add: train_size_def float_mul_def float_of_nat_def round53_def int_of_float_def
        double_0_7_def Let_def bit_length_numeral)
  moreover have "\<lfloor>0.7 * real (90::nat)\<rfloor> = 63" by simp
  ultimately show ?thesis by simp
qed

text \<open>
  Claim C3, as the code has it. For a dataset of \<open>n\<close> samples, \<open>n\<close> below \<open>2 ^ 49\<close>:
  the three sizes add up to \<open>n\<close>; the test size \<open>n - train - val\<close>, which takes the
  remainder, is not negative; the validation size is the floor of \<open>0.15 n\<close>; and the
  training size is the floor of \<open>0.7 n\<close>, except that for a multiple of 10 it may be
  one less (the double \<^verbatim>\<open>0.7\<close> lies below 7/10, and the product is rounded).
\<close>

theorem split_sizes_amended:
  assumes n: "n < 2 ^ 49"
  shows "train_size n + val_size n + test_size n = int n \<and>
     0 \<le> test_size n \<and>
     val_size n = \<lfloor>0.15 * real n\<rfloor> \<and>
     (train_size n = \<lfloor>0.7 * real n\<rfloor> \<or>
      (10 dvd n \<and> train_size n = \<lfloor>0.7 * real n\<rfloor> - 1))"
proof -
  note tb = train_size_bounds[OF n]
  have v: "val_size n = int (3 * n div 20)" using n by (rule val_size_exact)
  have sum: "train_size n + val_size n + test_size n = int n"
    by (simp add: test_size_def)
  have "10 * (7 * n div 10) \<le> 7 * n" "20 * (3 * n div 20) \<le> 3 * n" by simp_all
  with tb(1) v have "0 \<le> test_size n"
    unfolding test_size_def by linarith
  moreover have "train_size n = int (7 * n div 10) \<or>
      (10 dvd n \<and> train_size n = int (7 * n div 10) - 1)"
  proof (cases "10 dvd n")
    case True
    with tb(1,2) show ?thesis by linarith
  next
    case False
    then show ?thesis using tb(3) by simp
  qed
  ultimately show ?thesis
    using sum v by (simp only: floor_7_10 floor_15_100)
qed

theorem split_sizes_amended_witness:
  "(90::nat) < 2 ^ 49 \<and> train_size 90 + val_size 90 + test_size 90 = 90 \<and> val_size 90 = 13"
proof -
  have h: "(90::nat) < 2 ^ 49" by simp
  from split_sizes_amended[OF h] show ?thesis by simp
qed

section \<open>Properties of the classifier head and of the threshold\<close>

lemma mul_row_commute:
  fixes xs ys :: "real list"
  shows "map2 (*) xs ys = map2 (*) ys xs"
proof (induction xs arbitrary: ys)
  case Nil
  then show ?case by simp
next
  case (Cons x xs)
  then show ?case by (cases ys) (simp_all add: mult.commute)
qed

lemma mul_rows_commute:
  fixes xs ys :: "real list list"
  shows "map2 (map2 (*)) xs ys = map2 (map2 (*)) ys xs"
proof (induction xs arbitrary: ys)
  case Nil
  then show ?case by simp
next
  case (Cons x xs)
  then show ?case by (cases ys) (simp_all add: mul_row_commute[of x])
qed

lemma broadcast_dim_commute: "broadcast_dim m n = broadcast_dim n m"
  by (auto simp: broadcast_dim_def)

lemma tensor_mul_commute: "tensor_mul a b = tensor_mul b a"
  by (simp add: tensor_mul_def broadcast_dim_commute[of "nrows a"] broadcast_dim_commute[of "ncols a"]
      mul_rows_commute[of "expand _ _ a"] split: option.splits)

lemma forward_commute: "forward m a b = forward m b a"
  by (simp add: forward_def tensor_mul_commute[of a b])

lemma expand_same: "tensor_ok t \<Longrightarrow> expand (nrows t) (ncols t) t = rows t"
proof -
  assume "tensor_ok t"
  then have "\<forall>r\<in>set (rows t). expand_row (ncols t) r = r"
    by (simp add: tensor_ok_def list_all_iff expand_row_def)
  then have "map (expand_row (ncols t)) (rows t) = rows t"
    by (simp add: map_idI)
  then show ?thesis by (simp add: expand_def)
qed

lemma tensor_mul_same_shape:
  assumes "tensor_ok a" "tensor_ok b" "nrows a = nrows b" "ncols a = ncols b"
  shows "tensor_mul a b =
     Inr \<lparr>nrows = nrows a, ncols = ncols a, rows = map2 (map2 (*)) (rows a) (rows b)\<rparr>"
  using assms expand_same[of a] expand_same[of b]
  by (simp add: tensor_mul_def broadcast_dim_def)

lemma tensor_mul_ok:
  assumes "tensor_ok a" "tensor_ok b" "nrows a = nrows b" "ncols a = ncols b"
  shows "tensor_ok \<lparr>nrows = nrows a, ncols = ncols a, rows = map2 (map2 (*)) (rows a) (rows b)\<rparr>"
  using assms by (auto simp: tensor_ok_def list_all_iff elim!: in_set_zipE)

lemma linear_forward_init:
  assumes "ncols x = n_in"
  shows "\<exists>y. linear_forward (Linear_init n_in n_out w b) x = Inr y \<and>
     nrows y = nrows x \<and> ncols y = n_out \<and> length (rows y) = length (rows x) \<and>
     list_all (\<lambda>r. length r = n_out) (rows y)"
  using assms by (simp add: linear_forward_def Linear_init_def list_all_iff)

lemma relu_shape:
  "nrows (relu x) = nrows x" "ncols (relu x) = ncols x" "length (rows (relu x)) = length (rows x)"
  by (simp_all add: relu_def)

text \<open>
  Claim C6. For a model built with any hidden width and class count, and a batch of
  \<open>batch\<close> pairs of embeddings of dimension 512, \<open>forward\<close> returns a tensor of shape
  \<open>[batch, n_classes]\<close>: the elementwise product goes through a linear layer from 512 to
  the hidden width, ReLU, and a linear layer from the hidden width to the class count. The
  script builds its model with hidden width 256 and 4 classes.
\<close>

theorem forward_output_shape:
  assumes "tensor_ok text_embedding" and "tensor_ok image_embedding"
    and "nrows text_embedding = batch" and "nrows image_embedding = batch"
    and "ncols text_embedding = 512" and "ncols image_embedding = 512"
  shows "\<exists>combined hidden_out out.
      tensor_mul text_embedding image_embedding = Inr combined \<and>
      linear_forward (l1 (Smoke_model_init hidden n_classes winit binit)) combined
        = Inr hidden_out \<and>
      linear_forward (l2 (Smoke_model_init hidden n_classes winit binit)) (relu hidden_out)
        = Inr out \<and>
      forward (Smoke_model_init hidden n_classes winit binit) text_embedding image_embedding
        = Inr out \<and>
      nrows out = batch \<and> ncols out = n_classes \<and> tensor_ok out \<and>
      in_features (l1 (Smoke_model_init hidden n_classes winit binit)) = 512 \<and>
      out_features (l1 (Smoke_model_init hidden n_classes winit binit)) = hidden \<and>
      in_features (l2 (Smoke_model_init hidden n_classes winit binit)) = hidden \<and>
      out_features (l2 (Smoke_model_init hidden n_classes winit binit)) = n_classes \<and>
      smoke_model winit binit = Smoke_model_init 256 4 winit binit"
proof -
  let ?m = "Smoke_model_init hidden n_classes winit binit"
  define combined where "combined =
    \<lparr>nrows = nrows text_embedding, ncols = ncols text_embedding,
     rows = map2 (map2 (*)) (rows text_embedding) (rows image_embedding)\<rparr>"
  have mul: "tensor_mul text_embedding image_embedding = Inr combined"
    unfolding combined_def using assms by (intro tensor_mul_same_shape) simp_all
  have cok: "tensor_ok combined"
    unfolding combined_def using assms by (intro tensor_mul_ok) simp_all
  have c512: "ncols combined = 512" and cb: "nrows combined = batch"
    using assms by (simp_all add: combined_def)
  have l1: "l1 ?m = Linear_init 512 hidden (winit 1) (binit 1)"
    and l2: "l2 ?m = Linear_init hidden n_classes (winit 2) (binit 2)"
    by (simp_all add: Smoke_model_init_def)
  from linear_forward_init[OF c512, of hidden "winit 1" "binit 1"] obtain h where
    h: "linear_forward (l1 ?m) combined = Inr h" "nrows h = nrows combined" "ncols h = hidden"
      "length (rows h) = length (rows combined)"
    unfolding l1 by blast
  have rh: "ncols (relu h) = hidden" using h(3) by (simp add: relu_shape)
  from linear_forward_init[OF rh, of n_classes "winit 2" "binit 2"] obtain out where
    out: "linear_forward (l2 ?m) (relu h) = Inr out" "nrows out = nrows (relu h)"
      "ncols out = n_classes" "length (rows out) = length (rows (relu h))"
      "list_all (\<lambda>r. length r = n_classes) (rows out)"
    unfolding l2 by blast
  have fw: "forward ?m text_embedding image_embedding = Inr out"
    by (simp add: forward_def mul h(1) out(1))
  have nb: "nrows out = batch"
    using out(2) h(2) cb by (simp add: relu_shape)
  have ok: "tensor_ok out"
    using out(3,4,5) h(4) cok nb cb by (simp add: tensor_ok_def relu_shape)
  have feat: "in_features (l1 ?m) = 512" "out_features (l1 ?m) = hidden"
    "in_features (l2 ?m) = hidden" "out_features (l2 ?m) = n_classes"
    by (simp_all add: l1 l2 Linear_init_def)
  have cfg: "smoke_model winit binit = Smoke_model_init 256 4 winit binit"
    by (simp add: smoke_model_def hidden_dim_def num_classes_script_def)
  from mul h(1) out(1) fw nb out(3) ok feat cfg show ?thesis by blast
qed

lemma example_emb_ok: "tensor_ok example_emb_a" "tensor_ok example_emb_b"
  by (simp_all add: tensor_ok_def example_emb_a_def example_emb_b_def)

theorem forward_output_shape_witness:
  "tensor_ok example_emb_a \<and> tensor_ok example_emb_b \<and>
   (\<exists>out. forward (smoke_model (\<lambda>l i j. 1) (\<lambda>l i. 0)) example_emb_a example_emb_b = Inr out \<and>
      nrows out = 1 \<and> ncols out = 4)"
proof -
  have s: "nrows example_emb_a = 1" "nrows example_emb_b = 1"
    "ncols example_emb_a = 512" "ncols example_emb_b = 512"
    by (simp_all add: example_emb_a_def example_emb_b_def)
  from forward_output_shape[OF example_emb_ok s, of 256 4 "\<lambda>l i j. 1" "\<lambda>l i. 0"]
  show ?thesis using example_emb_ok by auto
qed

text \<open>
  Claim C5. The fusion step is the elementwise product of the two embeddings, so for two
  embeddings of the same shape \<open>forward\<close> gives the same result whichever comes first.
\<close>

theorem forward_commutative:
  assumes "tensor_ok a" and "tensor_ok b" and "nrows a = nrows b" and "ncols a = ncols b"
  shows "forward m a b = forward m b a \<and>
     tensor_mul a b =
       Inr \<lparr>nrows = nrows a, ncols = ncols a, rows = map2 (map2 (*)) (rows a) (rows b)\<rparr> \<and>
     tensor_mul b a = tensor_mul a b"
  using tensor_mul_same_shape[OF assms] by (simp add: forward_commute[of m a b] tensor_mul_commute[of b a])

theorem forward_commutative_witness:
  "tensor_ok example_emb_a \<and> tensor_ok example_emb_b \<and>
   forward (smoke_model (\<lambda>l i j. 1) (\<lambda>l i. 0)) example_emb_a example_emb_b
     = forward (smoke_model (\<lambda>l i j. 1) (\<lambda>l i. 0)) example_emb_b example_emb_a"
proof -
  have s: "nrows example_emb_a = nrows example_emb_b" "ncols example_emb_a = ncols example_emb_b"
    by (simp_all add: example_emb_a_def example_emb_b_def)
  from forward_commutative[OF example_emb_ok s] example_emb_ok show ?thesis by blast
qed

text \<open>
  Claim C4. Each entry of the prediction is \<open>sigmoid(logit) > 0.5\<close> for that entry alone,
  with a strict comparison: an entry whose sigmoid is exactly 0.5 is predicted negative.
  The sigmoid of the logit 0 is 0.5.
\<close>

theorem threshold_strict:
  assumes "i < length (rows outputs)" and "j < length (rows outputs ! i)"
  shows "predictions sig outputs ! i ! j = (sig (rows outputs ! i ! j) > 0.5) \<and>
     (sig (rows outputs ! i ! j) = 0.5 \<longrightarrow> predictions sig outputs ! i ! j = False) \<and>
     sigmoid 0 = 0.5"
  using assms by (simp add: predictions_def sigmoid_def)

theorem threshold_strict_witness:
  "predictions sigmoid example_logits ! 0 ! 0 = False \<and> rows example_logits ! 0 ! 0 = 0"
proof -
  have i: "0 < length (rows example_logits)" and j: "0 < length (rows example_logits ! 0)"
    by (simp_all add: example_logits_def)
  have z: "rows example_logits ! 0 ! 0 = 0" by (simp add: example_logits_def)
  from threshold_strict[OF i j, of sigmoid] show ?thesis unfolding z by simp
qed

end
